theory Spec2Isabelle
  imports Complex_Main "HOL-Library.Char_ord" "HOL-Library.List_Lexorder" "HOL-Library.Multiset"
    "HOL-Library.Sublist" "HOL-Library.Log_Nat"
begin

section \<open>The storage layer: text comparison, ordering, row ids\<close>

text \<open>
  The record store of \<^verbatim>\<open>main.py\<close> is a set of single SQL statements run by SQLite.
  The model gives each SQL construct the statements use as a HOL function and composes
  them the way the statement does.

  Calls are well typed: a date, category, source or note is a text (a \<open>string\<close>, one
  \<open>char\<close> per character of the text), an amount or a limit is a number, an id is a
  Python integer. A Python \<^verbatim>\<open>None\<close> is modelled where the code tests for it (the
  optional fields of \<^verbatim>\<open>update_expense\<close>, the category of \<^verbatim>\<open>summarize\<close>).

  A value of a REAL column is the real number that the stored finite 64-bit float
  denotes. What SQLite computes from such values, the \<^verbatim>\<open>SUM\<close> aggregate and the
  subtraction, is floating point arithmetic that rounds; its code is not part of the
  repository, and the model takes it as a parameter (\<open>real_arith\<close> below) and assumes
  nothing about it.

  Text columns compare under SQLite's default BINARY collation: \<^verbatim>\<open>memcmp\<close> over the
  common length, byte by byte as unsigned values, and on a tie the shorter text first.
  The order on \<open>char\<close> is the order of the byte values.
\<close>

datatype cmp = LT | EQ | GT

fun memcmp :: "string \<Rightarrow> string \<Rightarrow> cmp" where
  "memcmp (x # xs) (y # ys) =
     (if x < y then LT else if y < x then GT else memcmp xs ys)"
| "memcmp _ _ = EQ"

definition binary_collate :: "string \<Rightarrow> string \<Rightarrow> cmp" where
  "binary_collate a b =
     (case memcmp a b of
        EQ \<Rightarrow> (if length a < length b then LT
               else if length b < length a then GT else EQ)
      | c \<Rightarrow> c)"

text \<open>\<^verbatim>\<open>x = y\<close>, \<^verbatim>\<open>x <= y\<close> and \<^verbatim>\<open>x BETWEEN lo AND hi\<close> on texts.\<close>

definition sql_eq :: "string \<Rightarrow> string \<Rightarrow> bool" where
  "sql_eq a b = (binary_collate a b = EQ)"

definition sql_le :: "string \<Rightarrow> string \<Rightarrow> bool" where
  "sql_le a b = (binary_collate a b \<noteq> GT)"

definition sql_between :: "string \<Rightarrow> string \<Rightarrow> string \<Rightarrow> bool" where
  "sql_between x lo hi = (sql_le lo x \<and> sql_le x hi)"

text \<open>
  \<^verbatim>\<open>substr(X, Y, Z)\<close> for a start \<open>Y \<ge> 1\<close> and a length \<open>Z \<ge> 0\<close>: the \<open>Z\<close> characters
  of \<open>X\<close> from the \<open>Y\<close>-th on, fewer when \<open>X\<close> ends before. The function reads \<open>X\<close> as
  a C string: \<open>X\<close> ends at its first NUL character, if it has one.
\<close>

definition c_string :: "string \<Rightarrow> string" where
  "c_string x = takeWhile (\<lambda>c. c \<noteq> CHR 0x00) x"

definition substr :: "string \<Rightarrow> nat \<Rightarrow> nat \<Rightarrow> string" where
  "substr x y z = take z (drop (y - 1) (c_string x))"

text \<open>
  \<^verbatim>\<open>ORDER BY\<close>: the rows in ascending order of the key. Rows with equal keys keep the
  order in which the scan produced them.
\<close>

fun insert_by :: "('a \<Rightarrow> 'a \<Rightarrow> bool) \<Rightarrow> 'a \<Rightarrow> 'a list \<Rightarrow> 'a list" where
  "insert_by le x [] = [x]"
| "insert_by le x (y # ys) = (if le x y then x # y # ys else y # insert_by le x ys)"

definition order_by :: "('a \<Rightarrow> 'a \<Rightarrow> bool) \<Rightarrow> 'a list \<Rightarrow> 'a list" where
  "order_by le xs = foldr (insert_by le) xs []"

text \<open>
  \<^verbatim>\<open>GROUP BY\<close> on a text key, followed by \<^verbatim>\<open>ORDER BY\<close> on the same key: one group per
  distinct key, in ascending key order.
\<close>

definition group_keys :: "string list \<Rightarrow> string list" where
  "group_keys ks = remdups (order_by sql_le ks)"

text \<open>
  \<^verbatim>\<open>INTEGER PRIMARY KEY AUTOINCREMENT\<close>: the new row id is one more than the larger of
  the largest row id in the table and the value kept for the table in
  \<^verbatim>\<open>sqlite_sequence\<close>; when that is already the largest 64-bit signed integer the
  insert fails with \<^verbatim>\<open>SQLITE_FULL\<close>.
\<close>

datatype error = SQLITE_FULL | OverflowError

definition MAX_ROWID :: int where
  "MAX_ROWID = 9223372036854775807"

definition new_rowid :: "int list \<Rightarrow> int \<Rightarrow> error + int" where
  "new_rowid ids seq =
     (let m = max (fold max ids 0) seq
      in if MAX_ROWID \<le> m then Inl SQLITE_FULL else Inr (m + 1))"

text \<open>
  Binding a Python integer as a statement parameter raises \<^verbatim>\<open>OverflowError\<close> when it
  is not a signed 64-bit integer. A numeric argument is a Python integer or a finite
  Python float; in a REAL column an integer is stored as the nearest 64-bit float, ties
  to the even mantissa, which for an integer of at most 53 bits is the integer itself.
\<close>

definition fits_int64 :: "int \<Rightarrow> bool" where
  "fits_int64 n = (- (2 ^ 63) \<le> n \<and> n < 2 ^ 63)"

datatype number = Py_int int | Py_float real

fun bindable :: "number \<Rightarrow> bool" where
  "bindable (Py_int n) = fits_int64 n"
| "bindable (Py_float x) = True"

definition int64_to_real :: "int \<Rightarrow> real" where
  "int64_to_real n =
     (if \<bar>n\<bar> \<le> 2 ^ 53 then of_int n
      else (let u = 2 ^ nat (bitlen \<bar>n\<bar> - 53);
                q = \<bar>n\<bar> div u;
                r = \<bar>n\<bar> mod u;
                q' = (if 2 * r < u \<or> (2 * r = u \<and> even q) then q else q + 1)
            in of_int (sgn n * q' * u)))"

fun stored_real :: "number \<Rightarrow> real" where
  "stored_real (Py_int n) = int64_to_real n"
| "stored_real (Py_float x) = x"

text \<open>
  SQLite's arithmetic on REAL values, taken as a parameter: \<open>sum_real\<close> is the \<^verbatim>\<open>SUM\<close>
  aggregate over the values of a group that are not NULL, at least one, in the order
  in which the rows of the group are read; \<open>minus_real\<close> is the subtraction.
\<close>

record real_arith =
  sum_real :: "real list \<Rightarrow> real"
  minus_real :: "real \<Rightarrow> real \<Rightarrow> real"

section \<open>The schema and the database state\<close>

record expense_row =
  e_id :: int
  e_date :: string
  e_amount :: real
  e_category :: string
  e_subcategory :: string
  e_note :: string

record income_row =
  i_id :: int
  i_date :: string
  i_amount :: real
  i_source :: string
  i_note :: string

record budget_row =
  b_category :: string
  b_monthly_limit :: real

text \<open>
  A table is the list of its rows in the order of a table scan. \<open>seq_expenses\<close> and
  \<open>seq_income\<close> are the \<^verbatim>\<open>sqlite_sequence\<close> entries of the two AUTOINCREMENT tables
  (0 while the entry is absent).
\<close>

record db =
  expenses :: "expense_row list"
  income :: "income_row list"
  budgets :: "budget_row list"
  seq_expenses :: int
  seq_income :: int

text \<open>
  \<^verbatim>\<open>init_db\<close>: every table is created if it does not exist. \<open>None\<close> is the database
  file before its first use; an existing database is left as it is.
\<close>

definition init_db :: "db option \<Rightarrow> db" where
  "init_db file =
     (case file of
        None \<Rightarrow> \<lparr>expenses = [], income = [], budgets = [], seq_expenses = 0, seq_income = 0\<rparr>
      | Some d \<Rightarrow> d)"

section \<open>The tools\<close>

record summary_row =
  s_category :: string
  s_total_amount :: real

record budget_line =
  l_category :: string
  l_monthly_limit :: real
  l_spent :: real
  l_remaining :: real

text \<open>
  What a tool returns: a status dictionary or the list of the selected rows. The
  amount of \<^verbatim>\<open>add_expense\<close> and \<^verbatim>\<open>add_income\<close> and the limit of \<^verbatim>\<open>set_budget\<close> are given
  as the REAL value that is stored.
\<close>

datatype response =
    Status string
  | Status_Id string int
  | Expense_Rows "expense_row list"
  | Summary_Rows "summary_row list"
  | Income_Rows "income_row list"
  | Budget_Lines "budget_line list"

definition add_expense ::
  "string \<Rightarrow> real \<Rightarrow> string \<Rightarrow> string \<Rightarrow> string \<Rightarrow> db \<Rightarrow> error + response \<times> db" where
  "add_expense date amount category subcategory note d =
     (case new_rowid (map e_id (expenses d)) (seq_expenses d) of
        Inl err \<Rightarrow> Inl err
      | Inr lastrowid \<Rightarrow>
          Inr (Status_Id ''ok'' lastrowid,
               d\<lparr>expenses := expenses d @
                    [\<lparr>e_id = lastrowid, e_date = date, e_amount = amount,
                      e_category = category, e_subcategory = subcategory, e_note = note\<rparr>],
                 seq_expenses := lastrowid\<rparr>))"

definition list_expenses :: "string \<Rightarrow> string \<Rightarrow> db \<Rightarrow> expense_row list" where
  "list_expenses start_date end_date d =
     order_by (\<lambda>r s. e_id r \<le> e_id s)
       (filter (\<lambda>r. sql_between (e_date r) start_date end_date) (expenses d))"

text \<open>
  \<^verbatim>\<open>if category:\<close> is Python's truth test: \<^verbatim>\<open>None\<close> and the empty text are false.
\<close>

definition truthy :: "string option \<Rightarrow> bool" where
  "truthy v = (case v of None \<Rightarrow> False | Some s \<Rightarrow> s \<noteq> [])"

text \<open>
  The \<^verbatim>\<open>WHERE\<close> clause \<^verbatim>\<open>summarize\<close> builds: the date range, and
  \<^verbatim>\<open>AND category = ?\<close> appended when the category argument is true.
\<close>

definition summarize_where :: "string \<Rightarrow> string \<Rightarrow> string option \<Rightarrow> expense_row \<Rightarrow> bool" where
  "summarize_where start_date end_date category r =
     (sql_between (e_date r) start_date end_date \<and>
      (if truthy category
       then (case category of None \<Rightarrow> True | Some c \<Rightarrow> sql_eq (e_category r) c)
       else True))"

text \<open>
  One row per category among the selected rows; its total is \<^verbatim>\<open>SUM(amount)\<close> over the
  selected rows of the category, in the order of the table scan.
\<close>

definition summarize ::
  "real_arith \<Rightarrow> string \<Rightarrow> string \<Rightarrow> string option \<Rightarrow> db \<Rightarrow> summary_row list" where
  "summarize ar start_date end_date category d =
     (let rows = filter (summarize_where start_date end_date category) (expenses d)
      in map (\<lambda>k. \<lparr>s_category = k,
                    s_total_amount =
                      sum_real ar
                        (map e_amount (filter (\<lambda>r. sql_eq (e_category r) k) rows))\<rparr>)
           (group_keys (map e_category rows)))"

text \<open>
  \<^verbatim>\<open>update_expense\<close> collects one assignment per argument that is not \<^verbatim>\<open>None\<close>, in the
  order date, amount, category, subcategory, note, and returns early when there is none.
  Otherwise the values and the id are bound to the statement, which raises when one of
  them cannot be bound, before any row is changed.
\<close>

datatype assignment =
    Set_date string
  | Set_amount number
  | Set_category string
  | Set_subcategory string
  | Set_note string

fun assign :: "expense_row \<Rightarrow> assignment \<Rightarrow> expense_row" where
  "assign r (Set_date v) = r\<lparr>e_date := v\<rparr>"
| "assign r (Set_amount v) = r\<lparr>e_amount := stored_real v\<rparr>"
| "assign r (Set_category v) = r\<lparr>e_category := v\<rparr>"
| "assign r (Set_subcategory v) = r\<lparr>e_subcategory := v\<rparr>"
| "assign r (Set_note v) = r\<lparr>e_note := v\<rparr>"

definition supplied :: "('a \<Rightarrow> assignment) \<Rightarrow> 'a option \<Rightarrow> assignment list" where
  "supplied k v = (case v of None \<Rightarrow> [] | Some x \<Rightarrow> [k x])"

fun param_bindable :: "assignment \<Rightarrow> bool" where
  "param_bindable (Set_amount v) = bindable v"
| "param_bindable _ = True"

definition update_fields ::
  "string option \<Rightarrow> number option \<Rightarrow> string option \<Rightarrow> string option \<Rightarrow> string option
     \<Rightarrow> assignment list" where
  "update_fields date amount category subcategory note =
     supplied Set_date date @ supplied Set_amount amount @ supplied Set_category category @
     supplied Set_subcategory subcategory @ supplied Set_note note"

definition update_expense ::
  "int \<Rightarrow> string option \<Rightarrow> number option \<Rightarrow> string option \<Rightarrow> string option \<Rightarrow> string option
     \<Rightarrow> db \<Rightarrow> error + response \<times> db" where
  "update_expense expense_id date amount category subcategory note d =
     (let fields = update_fields date amount category subcategory note
      in if fields = [] then Inr (Status ''no_changes'', d)
         else if \<not> (list_all param_bindable fields \<and> fits_int64 expense_id)
         then Inl OverflowError
         else Inr (Status ''ok'',
                   d\<lparr>expenses :=
                        map (\<lambda>r. if e_id r = expense_id then foldl assign r fields else r)
                          (expenses d)\<rparr>))"

definition delete_expense :: "int \<Rightarrow> db \<Rightarrow> error + response \<times> db" where
  "delete_expense expense_id d =
     (if \<not> fits_int64 expense_id then Inl OverflowError
      else Inr (Status ''deleted'',
                d\<lparr>expenses := filter (\<lambda>r. e_id r \<noteq> expense_id) (expenses d)\<rparr>))"

definition add_income ::
  "string \<Rightarrow> real \<Rightarrow> string \<Rightarrow> string \<Rightarrow> db \<Rightarrow> error + response \<times> db" where
  "add_income date amount source note d =
     (case new_rowid (map i_id (income d)) (seq_income d) of
        Inl err \<Rightarrow> Inl err
      | Inr lastrowid \<Rightarrow>
          Inr (Status_Id ''ok'' lastrowid,
               d\<lparr>income := income d @
                    [\<lparr>i_id = lastrowid, i_date = date, i_amount = amount,
                      i_source = source, i_note = note\<rparr>],
                 seq_income := lastrowid\<rparr>))"

definition list_income :: "string \<Rightarrow> string \<Rightarrow> db \<Rightarrow> income_row list" where
  "list_income start_date end_date d =
     order_by (\<lambda>r s. sql_le (i_date r) (i_date s))
       (filter (\<lambda>r. sql_between (i_date r) start_date end_date) (income d))"

text \<open>
  \<^verbatim>\<open>INSERT ... ON CONFLICT(category) DO UPDATE SET monthly_limit = excluded.monthly_limit\<close>:
  a row whose category equals the new one is a conflict and gets the new limit; without
  a conflict the row is inserted.
\<close>

definition upsert_budget :: "string \<Rightarrow> real \<Rightarrow> budget_row list \<Rightarrow> budget_row list" where
  "upsert_budget category monthly_limit bs =
     (if list_ex (\<lambda>b. sql_eq (b_category b) category) bs
      then map (\<lambda>b. if sql_eq (b_category b) category
                     then b\<lparr>b_monthly_limit := monthly_limit\<rparr> else b) bs
      else bs @ [\<lparr>b_category = category, b_monthly_limit = monthly_limit\<rparr>])"

definition set_budget :: "string \<Rightarrow> real \<Rightarrow> db \<Rightarrow> response \<times> db" where
  "set_budget category monthly_limit d =
     (Status ''ok'', d\<lparr>budgets := upsert_budget category monthly_limit (budgets d)\<rparr>)"

text \<open>
  \<^verbatim>\<open>budgets b LEFT JOIN expenses e ON ...\<close>: every budget row paired with each expense
  row that satisfies the condition, and with no row (all of \<open>e\<close>'s columns NULL) when
  none does.
\<close>

definition left_join ::
  "('a \<Rightarrow> 'b \<Rightarrow> bool) \<Rightarrow> 'a list \<Rightarrow> 'b list \<Rightarrow> ('a \<times> 'b option) list" where
  "left_join on as bs =
     concat (map (\<lambda>a. case filter (on a) bs of
                         [] \<Rightarrow> [(a, None)]
                       | ms \<Rightarrow> map (\<lambda>b. (a, Some b)) ms) as)"

text \<open>\<^verbatim>\<open>SUM\<close> skips NULLs and is NULL when nothing is left; \<^verbatim>\<open>IFNULL\<close> replaces a NULL.\<close>

definition sql_sum :: "real_arith \<Rightarrow> real option list \<Rightarrow> real option" where
  "sql_sum ar vs =
     (case List.map_filter (\<lambda>v. v) vs of [] \<Rightarrow> None | xs \<Rightarrow> Some (sum_real ar xs))"

definition ifnull :: "'a option \<Rightarrow> 'a \<Rightarrow> 'a" where
  "ifnull v dflt = (case v of None \<Rightarrow> dflt | Some x \<Rightarrow> x)"

definition budget_on :: "string \<Rightarrow> budget_row \<Rightarrow> expense_row \<Rightarrow> bool" where
  "budget_on month b e =
     (sql_eq (b_category b) (e_category e) \<and> sql_eq (substr (e_date e) 1 7) month)"

text \<open>
  One line per group of the join. \<open>monthly_limit\<close> is not aggregated: it is read from
  a row of the group (here the first).
\<close>

definition budget_status :: "real_arith \<Rightarrow> string \<Rightarrow> db \<Rightarrow> budget_line list" where
  "budget_status ar month d =
     (let joined = left_join (budget_on month) (budgets d) (expenses d)
      in List.map_filter
           (\<lambda>k. case filter (\<lambda>(b, e). sql_eq (b_category b) k) joined of
                   [] \<Rightarrow> None
                 | (b, e) # rest \<Rightarrow>
                     (let spent = ifnull (sql_sum ar (map (\<lambda>(b, e). map_option e_amount e)
                                                       ((b, e) # rest))) 0
                      in Some \<lparr>l_category = k, l_monthly_limit = b_monthly_limit b,
                               l_spent = spent,
                               l_remaining = minus_real ar (b_monthly_limit b) spent\<rparr>))
           (group_keys (map (\<lambda>(b, e). b_category b) joined)))"

section \<open>Sequences of tool calls\<close>

datatype call =
    Add_expense string real string string string
  | List_expenses string string
  | Summarize string string "string option"
  | Update_expense int "string option" "number option" "string option" "string option"
      "string option"
  | Delete_expense int
  | Add_income string real string string
  | List_income string string
  | Set_budget string real
  | Budget_status string

text \<open>
  A call that fails leaves the database as it was: its statement is rolled back. The
  first argument is the arithmetic of the SQLite that serves the calls.
\<close>

fun invoke :: "real_arith \<Rightarrow> call \<Rightarrow> db \<Rightarrow> (error + response) \<times> db" where
  "invoke ar (Add_expense date amount category subcategory note) d =
     (case add_expense date amount category subcategory note d of
        Inl err \<Rightarrow> (Inl err, d) | Inr (r, d') \<Rightarrow> (Inr r, d'))"
| "invoke ar (List_expenses s e) d = (Inr (Expense_Rows (list_expenses s e d)), d)"
| "invoke ar (Summarize s e c) d = (Inr (Summary_Rows (summarize ar s e c d)), d)"
| "invoke ar (Update_expense i date amount category subcategory note) d =
     (case update_expense i date amount category subcategory note d of
        Inl err \<Rightarrow> (Inl err, d) | Inr (r, d') \<Rightarrow> (Inr r, d'))"
| "invoke ar (Delete_expense i) d =
     (case delete_expense i d of
        Inl err \<Rightarrow> (Inl err, d) | Inr (r, d') \<Rightarrow> (Inr r, d'))"
| "invoke ar (Add_income date amount source note) d =
     (case add_income date amount source note d of
        Inl err \<Rightarrow> (Inl err, d) | Inr (r, d') \<Rightarrow> (Inr r, d'))"
| "invoke ar (List_income s e) d = (Inr (Income_Rows (list_income s e d)), d)"
| "invoke ar (Set_budget c l) d = (case set_budget c l d of (r, d') \<Rightarrow> (Inr r, d'))"
| "invoke ar (Budget_status m) d = (Inr (Budget_Lines (budget_status ar m d)), d)"

fun run :: "real_arith \<Rightarrow> call list \<Rightarrow> db \<Rightarrow> (error + response) list \<times> db" where
  "run ar [] d = ([], d)"
| "run ar (c # cs) d =
     (case invoke ar c d of
        (r, d') \<Rightarrow> (case run ar cs d' of (rs, d'') \<Rightarrow> (r # rs, d'')))"

text \<open>
  The ids a sequence of calls handed out: those returned by its \<^verbatim>\<open>add_expense\<close>
  calls, and those returned by its \<^verbatim>\<open>add_income\<close> calls, in the order of the calls.
\<close>

fun expense_ids :: "call list \<Rightarrow> (error + response) list \<Rightarrow> int list" where
  "expense_ids (Add_expense _ _ _ _ _ # cs) (Inr (Status_Id _ n) # rs) = n # expense_ids cs rs"
| "expense_ids (_ # cs) (_ # rs) = expense_ids cs rs"
| "expense_ids _ _ = []"

fun income_ids :: "call list \<Rightarrow> (error + response) list \<Rightarrow> int list" where
  "income_ids (Add_income _ _ _ _ # cs) (Inr (Status_Id _ n) # rs) = n # income_ids cs rs"
| "income_ids (_ # cs) (_ # rs) = income_ids cs rs"
| "income_ids _ _ = []"

section \<open>The agent client\<close>

text \<open>
  \<^verbatim>\<open>main\<close> of \<^verbatim>\<open>client1.py\<close> talks to three parties: the environment (the variable
  \<^verbatim>\<open>OPENAI_API_KEY\<close>), the tool server and the language model. The model of the
  client takes what they answer as a \<open>world\<close> and returns the requests the client
  sends, in order, with the way it ends. Printing is left out.
\<close>

type_synonym args = "(string \<times> string) list"

record tool_call =
  tc_name :: string
  tc_args :: "args option"
  tc_id :: string

record ai_message =
  content :: string
  tool_calls :: "tool_call list option"

type_synonym tool_message = "string \<times> string"

datatype request =
    Prompt string
  | Prompt_with_results string ai_message "tool_message list"

datatype event =
    Get_tools
  | Tool_invoke string args
  | Model_invoke request

datatype py_error = KeyError string | Tool_failure string

text \<open>
  \<open>getenv_key\<close> is what \<^verbatim>\<open>os.getenv("OPENAI_API_KEY")\<close> returns, \<open>discovered\<close> the
  names of the tools \<^verbatim>\<open>client.get_tools()\<close> returned, \<open>tool_result\<close> the result of
  invoking a tool (\<open>None\<close> when the invocation raises), \<open>model_reply\<close> the model's
  answer to the first request.
\<close>

record world =
  getenv_key :: "string option"
  discovered :: "string list"
  tool_result :: "string \<Rightarrow> args \<Rightarrow> string option"
  model_reply :: ai_message

text \<open>The tools \<^verbatim>\<open>main.py\<close> registers with \<^verbatim>\<open>@mcp.tool()\<close>.\<close>

definition gateway_tools :: "string list" where
  "gateway_tools =
     [''add_expense'', ''list_expenses'', ''summarize'', ''update_expense'',
      ''delete_expense'', ''add_income'', ''list_income'', ''set_budget'', ''budget_status'']"

definition prompt :: string where
  "prompt =
     ''Add an expense of Rs 5000 as shopping on 2024-01-15 with note '' @ [CHR 0x27] @
     ''New shoes'' @ [CHR 0x27] @
     '', and then list all expenses between 2024-01-01 and 2024-12-31.''"

definition smoke_test_args :: args where
  "smoke_test_args = [(''start_date'', ''2000-01-01''), (''end_date'', ''2100-01-01'')]"

text \<open>
  The loop over \<^verbatim>\<open>response.tool_calls\<close>: \<^verbatim>\<open>named_tools[selected_tool]\<close> raises
  \<^verbatim>\<open>KeyError\<close> for a name that was not discovered, and nothing is caught.
\<close>

fun dispatch ::
  "world \<Rightarrow> tool_call list \<Rightarrow> tool_message list \<Rightarrow> event list \<times> (py_error + tool_message list)"
  where
  "dispatch w [] tool_messages = ([], Inr tool_messages)"
| "dispatch w (tc # tcs) tool_messages =
     (let selected_tool = tc_name tc;
          selected_tool_args = (case tc_args tc of None \<Rightarrow> [] | Some a \<Rightarrow> a)
      in if selected_tool \<notin> set (discovered w) then ([], Inl (KeyError selected_tool))
         else (case tool_result w selected_tool selected_tool_args of
                 None \<Rightarrow> ([Tool_invoke selected_tool selected_tool_args],
                           Inl (Tool_failure selected_tool))
               | Some result \<Rightarrow>
                   (case dispatch w tcs (tool_messages @ [(tc_id tc, result)]) of
                      (evs, out) \<Rightarrow> (Tool_invoke selected_tool selected_tool_args # evs, out))))"

definition smoke_test :: "world \<Rightarrow> event list \<times> py_error option" where
  "smoke_test w =
     (if ''list_expenses'' \<notin> set (discovered w) then ([], Some (KeyError ''list_expenses''))
      else ([Tool_invoke ''list_expenses'' smoke_test_args],
            (case tool_result w ''list_expenses'' smoke_test_args of
               None \<Rightarrow> Some (Tool_failure ''list_expenses'')
             | Some res \<Rightarrow> None)))"

definition agent_round :: "world \<Rightarrow> event list \<times> py_error option" where
  "agent_round w =
     (let response = model_reply w
      in case tool_calls response of
           None \<Rightarrow> ([Model_invoke (Prompt prompt)], None)
         | Some [] \<Rightarrow> ([Model_invoke (Prompt prompt)], None)
         | Some tcs \<Rightarrow>
             (case dispatch w tcs [] of
                (evs, Inl err) \<Rightarrow> (Model_invoke (Prompt prompt) # evs, Some err)
              | (evs, Inr tool_messages) \<Rightarrow>
                  (Model_invoke (Prompt prompt) # evs @
                     [Model_invoke (Prompt_with_results prompt response tool_messages)],
                   None)))"

text \<open>
  \<open>main\<close> returns the requests sent and \<open>None\<close> when it returns, \<open>Some\<close> of the
  exception when it ends by one.
\<close>

definition main :: "world \<Rightarrow> event list \<times> py_error option" where
  "main w =
     (case (if \<not> truthy (getenv_key w) then smoke_test w else agent_round w) of
        (evs, out) \<Rightarrow> (Get_tools # evs, out))"

section \<open>Reference definitions and sample data\<close>

text \<open>
  The partial update as the design notes describe it: a mapping from field to optional
  new value, applied field by field, an unset field left as it is.
\<close>

definition patch_row ::
  "string option \<Rightarrow> number option \<Rightarrow> string option \<Rightarrow> string option \<Rightarrow> string option
     \<Rightarrow> expense_row \<Rightarrow> expense_row" where
  "patch_row date amount category subcategory note r =
     \<lparr>e_id = e_id r,
      e_date = (case date of None \<Rightarrow> e_date r | Some v \<Rightarrow> v),
      e_amount = (case amount of None \<Rightarrow> e_amount r | Some v \<Rightarrow> stored_real v),
      e_category = (case category of None \<Rightarrow> e_category r | Some v \<Rightarrow> v),
      e_subcategory = (case subcategory of None \<Rightarrow> e_subcategory r | Some v \<Rightarrow> v),
      e_note = (case note of None \<Rightarrow> e_note r | Some v \<Rightarrow> v)\<rparr>"







text \<open>
  Arithmetic without rounding: what floating point arithmetic computes on values, such
  as small integers, whose sums and differences are 64-bit floats themselves.
\<close>

definition exact_arith :: real_arith where
  "exact_arith = \<lparr>sum_real = sum_list, minus_real = (-)\<rparr>"

text \<open>A short session on a new database, and the database it leaves.\<close>

definition ex_calls :: "call list" where
  "ex_calls =
     [Add_expense ''2024-01-15'' 5000 ''shopping'' '''' ''New shoes'',
      Add_income ''2024-03-01'' 900 ''salary'' '''',
      Set_budget ''food'' 250,
      Add_expense ''2024-02-01'' 120 ''food'' '''' '''',
      Add_expense ''2024-02-02'' 7 ''food'' '''' '''',
      Delete_expense 3,
      Add_income ''2024-01-31'' 50 ''gift'' '''',
      Set_budget ''food'' 300,
      Add_expense ''2023-12-31'' 40 ''food'' '''' '''']"

definition ex_db :: db where
  "ex_db =
     \<lparr>expenses =
        [\<lparr>e_id = 1, e_date = ''2024-01-15'', e_amount = 5000, e_category = ''shopping'',
          e_subcategory = '''', e_note = ''New shoes''\<rparr>,
         \<lparr>e_id = 2, e_date = ''2024-02-01'', e_amount = 120, e_category = ''food'',
          e_subcategory = '''', e_note = ''''\<rparr>,
         \<lparr>e_id = 4, e_date = ''2023-12-31'', e_amount = 40, e_category = ''food'',
          e_subcategory = '''', e_note = ''''\<rparr>],
      income =
        [\<lparr>i_id = 1, i_date = ''2024-03-01'', i_amount = 900, i_source = ''salary'',
          i_note = ''''\<rparr>,
         \<lparr>i_id = 2, i_date = ''2024-01-31'', i_amount = 50, i_source = ''gift'',
          i_note = ''''\<rparr>],
      budgets = [\<lparr>b_category = ''food'', b_monthly_limit = 300\<rparr>],
      seq_expenses = 4, seq_income = 2\<rparr>"

text \<open>A client without a credential, connected to the tool server of \<^verbatim>\<open>main.py\<close>.\<close>

definition ex_world :: world where
  "ex_world =
     \<lparr>getenv_key = None, discovered = gateway_tools,
      tool_result = (\<lambda>name a. Some ''[]''),
      model_reply = \<lparr>content = '''', tool_calls = None\<rparr>\<rparr>"

section \<open>The storage layer's constructs meet their SQL meaning\<close>

text \<open>BINARY collation is the lexicographic order of the texts.\<close>

lemma Nil_less_iff: "([] :: string) < u \<longleftrightarrow> u \<noteq> []"
  by (cases u) simp_all

lemma binary_collate_LT: "binary_collate a b = LT \<longleftrightarrow> a < b"
  unfolding binary_collate_def
  by (induction a b rule: memcmp.induct) (auto simp: Nil_less_iff split: cmp.splits if_splits)

lemma binary_collate_GT: "binary_collate a b = GT \<longleftrightarrow> b < a"
  unfolding binary_collate_def
  by (induction a b rule: memcmp.induct) (auto simp: Nil_less_iff split: cmp.splits if_splits)

lemma binary_collate_EQ: "binary_collate a b = EQ \<longleftrightarrow> a = b"
  unfolding binary_collate_def
  by (induction a b rule: memcmp.induct) (auto split: cmp.splits if_splits)

lemma sql_eq_iff: "sql_eq a b \<longleftrightarrow> a = b"
  by (simp add: sql_eq_def binary_collate_EQ)

lemma sql_le_iff: "sql_le a b \<longleftrightarrow> a \<le> b"
  by (simp add: sql_le_def binary_collate_GT not_less)

lemma sql_between_iff: "sql_between x lo hi \<longleftrightarrow> lo \<le> x \<and> x \<le> hi"
  by (simp add: sql_between_def sql_le_iff)

text \<open>\<open>order_by\<close> permutes its input and sorts it, for a total and transitive comparison.\<close>

lemma mset_insert_by: "mset (insert_by le x xs) = add_mset x (mset xs)"
  by (induction xs) auto

lemma mset_order_by: "mset (order_by le xs) = mset xs"
  unfolding order_by_def by (induction xs) (auto simp: mset_insert_by)

lemma set_order_by: "set (order_by le xs) = set xs"
  by (metis mset_order_by set_mset_mset)

lemma sorted_insert_by:
  assumes tot: "\<And>a b. le a b \<or> le b a" and tr: "\<And>a b c. le a b \<Longrightarrow> le b c \<Longrightarrow> le a c"
  shows "sorted_wrt le xs \<Longrightarrow> sorted_wrt le (insert_by le x xs)"
proof (induction xs)
  case Nil
  then show ?case by simp
next
  case (Cons y ys)
  have "set (insert_by le x ys) = insert x (set ys)"
    by (metis mset_insert_by set_mset_add_mset_insert set_mset_mset)
  with Cons tot tr show ?case by auto
qed

lemma sorted_order_by:
  assumes tot: "\<And>a b. le a b \<or> le b a" and tr: "\<And>a b c. le a b \<Longrightarrow> le b c \<Longrightarrow> le a c"
  shows "sorted_wrt le (order_by le xs)"
  unfolding order_by_def
  by (induction xs) (auto intro: sorted_insert_by [OF tot tr])

section \<open>Runs of calls\<close>

lemma snd_run_Cons: "snd (run ar (c # cs) d) = snd (run ar cs (snd (invoke ar c d)))"
  by (simp split: prod.splits)

lemma run_ex_calls: "snd (run ar ex_calls (init_db None)) = ex_db"
  by (simp add: ex_calls_def ex_db_def init_db_def add_expense_def add_income_def
      new_rowid_def delete_expense_def fits_int64_def set_budget_def upsert_budget_def
      sql_eq_def binary_collate_def MAX_ROWID_def Let_def)

text \<open>
  The ids of the stored expenses are positive and at most the largest row id, in every
  database that calls build from a new one: they can be bound.
\<close>

lemma fold_max_ge: "(a :: int) \<le> fold max ids a"
proof (induction ids arbitrary: a)
  case Nil
  then show ?case by simp
next
  case (Cons x xs)
  have "a \<le> max x a" by simp
  also have "\<dots> \<le> fold max xs (max x a)" by (rule Cons.IH)
  finally show ?case by simp
qed

lemma new_rowid_range:
  assumes "new_rowid ids seq = Inr n"
  shows "0 < n \<and> n \<le> MAX_ROWID"
proof -
  have "0 \<le> max (fold max ids 0) seq"
    using fold_max_ge [of 0 ids] by simp
  with assms show ?thesis
    by (auto simp: new_rowid_def Let_def split: if_splits)
qed

lemma e_id_assign: "e_id (foldl assign r as) = e_id r"
proof (induction as arbitrary: r)
  case Nil
  then show ?case by simp
next
  case (Cons f fs)
  have "e_id (assign r f) = e_id r" by (cases f) simp_all
  with Cons.IH [of "assign r f"] show ?case by simp
qed

lemma invoke_ids_range:
  assumes "\<forall>r \<in> set (expenses d). 0 < e_id r \<and> e_id r \<le> MAX_ROWID"
  shows "\<forall>r \<in> set (expenses (snd (invoke ar c d))). 0 < e_id r \<and> e_id r \<le> MAX_ROWID"
proof (cases c)
  case (Add_expense dt am ca su no)
  show ?thesis
  proof (cases "new_rowid (map e_id (expenses d)) (seq_expenses d)")
    case (Inl err)
    with Add_expense assms show ?thesis by (simp add: add_expense_def)
  next
    case (Inr n)
    then have "0 < n \<and> n \<le> MAX_ROWID" by (rule new_rowid_range)
    with Add_expense Inr assms show ?thesis by (auto simp: add_expense_def)
  qed
next
  case (Update_expense i dt am ca su no)
  with assms show ?thesis
    by (auto simp: update_expense_def Let_def e_id_assign split: if_splits)
next
  case (Delete_expense i)
  with assms show ?thesis
    by (auto simp: delete_expense_def split: if_splits)
next
  case (Add_income dt am so no)
  with assms show ?thesis
    by (auto simp: add_income_def split: sum.splits)
qed (use assms in \<open>auto simp: set_budget_def\<close>)

lemma run_ids_range:
  assumes "\<forall>r \<in> set (expenses d). 0 < e_id r \<and> e_id r \<le> MAX_ROWID"
  shows "\<forall>r \<in> set (expenses (snd (run ar cs d))). 0 < e_id r \<and> e_id r \<le> MAX_ROWID"
  using assms
proof (induction cs arbitrary: d)
  case Nil
  then show ?case by simp
next
  case (Cons c cs)
  from Cons.prems have "\<forall>r \<in> set (expenses (snd (invoke ar c d))).
      0 < e_id r \<and> e_id r \<le> MAX_ROWID"
    by (rule invoke_ids_range)
  then show ?case
    unfolding snd_run_Cons by (rule Cons.IH)
qed

lemma reachable_ids_fit:
  "\<forall>r \<in> set (expenses (snd (run ar cs (init_db None)))). fits_int64 (e_id r)"
proof -
  have "\<forall>r \<in> set (expenses (snd (run ar cs (init_db None)))).
      0 < e_id r \<and> e_id r \<le> MAX_ROWID"
    by (rule run_ids_range) (simp add: init_db_def)
  then show ?thesis
    by (auto simp: fits_int64_def MAX_ROWID_def)
qed

section \<open>Listing expenses\<close>

text \<open>
  C1. For all bounds \<open>d1\<close> and \<open>d2\<close>, \<open>list_expenses d1 d2\<close> returns exactly the stored
  expense rows whose date lies between \<open>d1\<close> and \<open>d2\<close> (both included) in the
  lexicographic order of texts, each as often as it is stored, in ascending order
  of id.
\<close>

theorem list_expenses_range_by_id:
  "set (list_expenses d1 d2 d) = {r \<in> set (expenses d). d1 \<le> e_date r \<and> e_date r \<le> d2} \<and>
   mset (list_expenses d1 d2 d) =
     filter_mset (\<lambda>r. d1 \<le> e_date r \<and> e_date r \<le> d2) (mset (expenses d)) \<and>
   sorted (map e_id (list_expenses d1 d2 d))"
proof -
  have "sorted_wrt (\<lambda>r s. e_id r \<le> e_id s) (list_expenses d1 d2 d)"
    unfolding list_expenses_def by (rule sorted_order_by) auto
  then have "sorted (map e_id (list_expenses d1 d2 d))"
    by (simp add: sorted_map)
  then show ?thesis
    by (simp add: list_expenses_def set_order_by mset_order_by sql_between_iff)
qed

theorem list_expenses_range_by_id_witness:
  "list_expenses ''2024-01-01'' ''2024-12-31'' ex_db =
     [\<lparr>e_id = 1, e_date = ''2024-01-15'', e_amount = 5000, e_category = ''shopping'',
       e_subcategory = '''', e_note = ''New shoes''\<rparr>,
      \<lparr>e_id = 2, e_date = ''2024-02-01'', e_amount = 120, e_category = ''food'',
       e_subcategory = '''', e_note = ''''\<rparr>] \<and>
   set (list_expenses ''2024-01-01'' ''2024-12-31'' ex_db) =
     {r \<in> set (expenses ex_db). ''2024-01-01'' \<le> e_date r \<and> e_date r \<le> ''2024-12-31''} \<and>
   sorted (map e_id (list_expenses ''2024-01-01'' ''2024-12-31'' ex_db))"
proof -
  have "list_expenses ''2024-01-01'' ''2024-12-31'' ex_db =
     [\<lparr>e_id = 1, e_date = ''2024-01-15'', e_amount = 5000, e_category = ''shopping'',
       e_subcategory = '''', e_note = ''New shoes''\<rparr>,
      \<lparr>e_id = 2, e_date = ''2024-02-01'', e_amount = 120, e_category = ''food'',
       e_subcategory = '''', e_note = ''''\<rparr>]"
    by (simp add: list_expenses_def ex_db_def order_by_def sql_between_def sql_le_def
        binary_collate_def)
  with list_expenses_range_by_id [of "''2024-01-01''" "''2024-12-31''" ex_db]
  show ?thesis by blast
qed

section \<open>Updating and deleting an expense\<close>

lemma update_fields_Nil:
  "update_fields dt am ca su no = [] \<longleftrightarrow>
     dt = None \<and> am = None \<and> ca = None \<and> su = None \<and> no = None"
  by (auto simp: update_fields_def supplied_def split: option.splits)

lemma update_fields_bindable:
  "list_all param_bindable (update_fields dt am ca su no) \<longleftrightarrow> (\<forall>v. am = Some v \<longrightarrow> bindable v)"
  by (auto simp: update_fields_def supplied_def split: option.splits)

lemma foldl_assign_patch:
  "foldl assign r (update_fields dt am ca su no) = patch_row dt am ca su no r"
  by (cases dt; cases am; cases ca; cases su; cases no)
     (simp_all add: update_fields_def supplied_def patch_row_def)

lemma int64_to_real_exact: "\<bar>n\<bar> \<le> 2 ^ 53 \<Longrightarrow> int64_to_real n = of_int n"
  by (simp add: int64_to_real_def)

text \<open>
  C3. With no field supplied, \<open>update_expense\<close> returns the status \<open>no_changes\<close> and the
  database, hence every row, is unchanged. With at least one of date, amount, category,
  subcategory, note supplied, for an id and an amount that can be bound, it returns
  \<open>ok\<close>, every row with the given id becomes its patch (each supplied field has the
  supplied value, every other field and the id keep theirs), and nothing else changes;
  in particular an existing row with that id is replaced by its patch. The id of every
  row stored in a database that calls build from a new one can be bound.
\<close>

theorem update_expense_patch:
  "update_expense i None None None None None d = Inr (Status ''no_changes'', d) \<and>
   ((dt \<noteq> None \<or> am \<noteq> None \<or> ca \<noteq> None \<or> su \<noteq> None \<or> no \<noteq> None) \<and>
    fits_int64 i \<and> (\<forall>v. am = Some v \<longrightarrow> bindable v) \<longrightarrow>
      update_expense i dt am ca su no d =
        Inr (Status ''ok'',
             d\<lparr>expenses := map (\<lambda>r. if e_id r = i then patch_row dt am ca su no r else r)
                               (expenses d)\<rparr>) \<and>
      (\<forall>r \<in> set (expenses d). e_id r = i \<longrightarrow>
         patch_row dt am ca su no r \<in>
           set (map (\<lambda>r. if e_id r = i then patch_row dt am ca su no r else r)
                  (expenses d)))) \<and>
   (\<forall>r \<in> set (expenses (snd (run ar cs (init_db None)))). fits_int64 (e_id r))"
proof -
  have "update_expense i None None None None None d = Inr (Status ''no_changes'', d)"
    by (simp add: update_expense_def update_fields_Nil)
  moreover have "update_expense i dt am ca su no d =
        Inr (Status ''ok'',
             d\<lparr>expenses := map (\<lambda>r. if e_id r = i then patch_row dt am ca su no r else r)
                               (expenses d)\<rparr>)"
    if "dt \<noteq> None \<or> am \<noteq> None \<or> ca \<noteq> None \<or> su \<noteq> None \<or> no \<noteq> None"
      and "fits_int64 i" and "\<forall>v. am = Some v \<longrightarrow> bindable v"
    using that
    by (simp add: update_expense_def update_fields_Nil update_fields_bindable
        foldl_assign_patch Let_def)
  moreover have "patch_row dt am ca su no r \<in>
        set (map (\<lambda>r. if e_id r = i then patch_row dt am ca su no r else r) (expenses d))"
    if "r \<in> set (expenses d)" "e_id r = i" for r
    using that by (auto simp: image_iff)
  moreover note reachable_ids_fit [of ar cs]
  ultimately show ?thesis by blast
qed

theorem update_expense_patch_witness:
  "fits_int64 2 \<and> bindable (Py_int 99) \<and>
   update_expense 2 None None None None None ex_db = Inr (Status ''no_changes'', ex_db) \<and>
   update_expense 2 None (Some (Py_int 99)) None None (Some ''lunch'') ex_db =
     Inr (Status ''ok'',
      ex_db\<lparr>expenses :=
        [\<lparr>e_id = 1, e_date = ''2024-01-15'', e_amount = 5000, e_category = ''shopping'',
          e_subcategory = '''', e_note = ''New shoes''\<rparr>,
         \<lparr>e_id = 2, e_date = ''2024-02-01'', e_amount = 99, e_category = ''food'',
          e_subcategory = '''', e_note = ''lunch''\<rparr>,
         \<lparr>e_id = 4, e_date = ''2023-12-31'', e_amount = 40, e_category = ''food'',
          e_subcategory = '''', e_note = ''''\<rparr>]\<rparr>)"
proof -
  have f: "fits_int64 2" and b: "bindable (Py_int 99)"
    by (simp_all add: fits_int64_def)
  then have "(None \<noteq> (None :: string option) \<or> Some (Py_int 99) \<noteq> None \<or>
      None \<noteq> (None :: string option) \<or> None \<noteq> (None :: string option) \<or>
      Some ''lunch'' \<noteq> None) \<and>
    fits_int64 2 \<and> (\<forall>v. Some (Py_int 99) = Some v \<longrightarrow> bindable v)"
    by simp
  with update_expense_patch [of 2 ex_db None "Some (Py_int 99)" None None "Some ''lunch''"]
  have "update_expense 2 None None None None None ex_db = Inr (Status ''no_changes'', ex_db)"
    and "update_expense 2 None (Some (Py_int 99)) None None (Some ''lunch'') ex_db =
        Inr (Status ''ok'',
             ex_db\<lparr>expenses :=
               map (\<lambda>r. if e_id r = 2
                         then patch_row None (Some (Py_int 99)) None None (Some ''lunch'') r
                         else r) (expenses ex_db)\<rparr>)"
    by blast+
  with f b show ?thesis
    by (simp add: patch_row_def ex_db_def int64_to_real_exact)
qed

text \<open>
  C10. When no stored row has the given id, at least one field is supplied, and the id
  and the amount can be bound, \<open>update_expense\<close> returns the status \<open>ok\<close> and leaves the
  whole database unchanged. On every database the outcome is \<open>no_changes\<close> exactly when
  no field is supplied, and otherwise \<open>ok\<close>, or the exception when a value cannot be
  bound: it does not depend on the rows.
\<close>

theorem update_expense_missing_row:
  "((\<forall>r \<in> set (expenses d). e_id r \<noteq> i) \<and>
    (dt \<noteq> None \<or> am \<noteq> None \<or> ca \<noteq> None \<or> su \<noteq> None \<or> no \<noteq> None) \<and>
    fits_int64 i \<and> (\<forall>v. am = Some v \<longrightarrow> bindable v) \<longrightarrow>
      update_expense i dt am ca su no d = Inr (Status ''ok'', d)) \<and>
   map_sum id fst (update_expense i dt am ca su no d) =
     (if dt = None \<and> am = None \<and> ca = None \<and> su = None \<and> no = None
      then Inr (Status ''no_changes'')
      else if fits_int64 i \<and> (\<forall>v. am = Some v \<longrightarrow> bindable v)
      then Inr (Status ''ok'') else Inl OverflowError)"
proof -
  have "update_expense i dt am ca su no d = Inr (Status ''ok'', d)"
    if none: "\<forall>r \<in> set (expenses d). e_id r \<noteq> i"
      and some: "dt \<noteq> None \<or> am \<noteq> None \<or> ca \<noteq> None \<or> su \<noteq> None \<or> no \<noteq> None"
      and bind: "fits_int64 i" "\<forall>v. am = Some v \<longrightarrow> bindable v"
  proof -
    have "map (\<lambda>r. if e_id r = i then foldl assign r (update_fields dt am ca su no) else r)
            (expenses d) = expenses d"
      using none by (intro map_idI) simp
    with some bind show ?thesis
      by (simp add: update_expense_def update_fields_Nil update_fields_bindable Let_def)
  qed
  moreover have "map_sum id fst (update_expense i dt am ca su no d) =
     (if dt = None \<and> am = None \<and> ca = None \<and> su = None \<and> no = None
      then Inr (Status ''no_changes'')
      else if fits_int64 i \<and> (\<forall>v. am = Some v \<longrightarrow> bindable v)
      then Inr (Status ''ok'') else Inl OverflowError)"
    by (simp add: update_expense_def update_fields_Nil update_fields_bindable Let_def)
  ultimately show ?thesis by blast
qed

theorem update_expense_missing_row_witness:
  "map e_id (expenses ex_db) = [1, 2, 4] \<and> fits_int64 3 \<and> bindable (Py_float 12.5) \<and>
   update_expense 3 (Some ''2024-05-05'') (Some (Py_float 12.5)) None None None ex_db =
     Inr (Status ''ok'', ex_db)"
proof -
  have "\<forall>r \<in> set (expenses ex_db). e_id r \<noteq> 3"
    by (simp add: ex_db_def)
  moreover have f: "fits_int64 3" "bindable (Py_float 12.5)"
    by (simp_all add: fits_int64_def)
  moreover have "\<forall>v. Some (Py_float 12.5) = Some v \<longrightarrow> bindable v"
    by simp
  moreover have "map e_id (expenses ex_db) = [1, 2, 4]"
    by (simp add: ex_db_def)
  ultimately show ?thesis
    using update_expense_missing_row
      [of ex_db 3 "Some ''2024-05-05''" "Some (Py_float 12.5)" None None None]
    by blast
qed

text \<open>An id that is not a signed 64-bit integer cannot be bound: the call raises.\<close>

lemma update_expense_overflow:
  "dt \<noteq> None \<Longrightarrow> \<not> fits_int64 i \<Longrightarrow> update_expense i dt am ca su no d = Inl OverflowError"
  by (simp add: update_expense_def update_fields_Nil Let_def)

lemma delete_expense_overflow:
  "\<not> fits_int64 i \<Longrightarrow> delete_expense i d = Inl OverflowError"
  by (simp add: delete_expense_def)

text \<open>
  C5. For every id that is a signed 64-bit integer, stored or not, \<open>delete_expense\<close>
  returns the status \<open>deleted\<close>. When no row has the id the database is unchanged, and
  deleting the same id a second time leaves the database as the first deletion left it.
  The ids of the stored rows are such integers.
\<close>

theorem delete_expense_idempotent:
  "(fits_int64 i \<longrightarrow>
      delete_expense i d =
        Inr (Status ''deleted'', d\<lparr>expenses := filter (\<lambda>r. e_id r \<noteq> i) (expenses d)\<rparr>) \<and>
      delete_expense i (d\<lparr>expenses := filter (\<lambda>r. e_id r \<noteq> i) (expenses d)\<rparr>) =
        Inr (Status ''deleted'', d\<lparr>expenses := filter (\<lambda>r. e_id r \<noteq> i) (expenses d)\<rparr>) \<and>
      ((\<forall>r \<in> set (expenses d). e_id r \<noteq> i) \<longrightarrow>
         delete_expense i d = Inr (Status ''deleted'', d))) \<and>
   (\<forall>r \<in> set (expenses (snd (run ar cs (init_db None)))). fits_int64 (e_id r))"
proof -
  have "filter (\<lambda>r. e_id r \<noteq> i) (expenses d) = expenses d"
    if "\<forall>r \<in> set (expenses d). e_id r \<noteq> i"
    using that by (simp add: filter_id_conv)
  then show ?thesis
    using reachable_ids_fit [of ar cs] by (auto simp: delete_expense_def)
qed

theorem delete_expense_idempotent_witness:
  "map e_id (expenses ex_db) = [1, 2, 4] \<and> fits_int64 3 \<and> fits_int64 2 \<and>
   delete_expense 3 ex_db = Inr (Status ''deleted'', ex_db) \<and>
   delete_expense 2 ex_db =
     Inr (Status ''deleted'',
       ex_db\<lparr>expenses :=
         [\<lparr>e_id = 1, e_date = ''2024-01-15'', e_amount = 5000, e_category = ''shopping'',
           e_subcategory = '''', e_note = ''New shoes''\<rparr>,
          \<lparr>e_id = 4, e_date = ''2023-12-31'', e_amount = 40, e_category = ''food'',
           e_subcategory = '''', e_note = ''''\<rparr>]\<rparr>) \<and>
   delete_expense 2
       (ex_db\<lparr>expenses := filter (\<lambda>r. e_id r \<noteq> 2) (expenses ex_db)\<rparr>) =
     Inr (Status ''deleted'',
       ex_db\<lparr>expenses := filter (\<lambda>r. e_id r \<noteq> 2) (expenses ex_db)\<rparr>)"
proof -
  have n: "\<forall>r \<in> set (expenses ex_db). e_id r \<noteq> 3"
    and m: "map e_id (expenses ex_db) = [1, 2, 4]"
    by (simp_all add: ex_db_def)
  have f: "fits_int64 3" "fits_int64 2"
    by (simp_all add: fits_int64_def)
  have v: "filter (\<lambda>r. e_id r \<noteq> 2) (expenses ex_db) =
         [\<lparr>e_id = 1, e_date = ''2024-01-15'', e_amount = 5000, e_category = ''shopping'',
           e_subcategory = '''', e_note = ''New shoes''\<rparr>,
          \<lparr>e_id = 4, e_date = ''2023-12-31'', e_amount = 40, e_category = ''food'',
           e_subcategory = '''', e_note = ''''\<rparr>]"
    by (simp add: ex_db_def)
  from n f delete_expense_idempotent [of 3 ex_db exact_arith "[]"]
  have a: "delete_expense 3 ex_db = Inr (Status ''deleted'', ex_db)" by blast
  from f delete_expense_idempotent [of 2 ex_db exact_arith "[]"]
  have b: "delete_expense 2 ex_db =
        Inr (Status ''deleted'',
             ex_db\<lparr>expenses := filter (\<lambda>r. e_id r \<noteq> 2) (expenses ex_db)\<rparr>)"
    and c: "delete_expense 2
         (ex_db\<lparr>expenses := filter (\<lambda>r. e_id r \<noteq> 2) (expenses ex_db)\<rparr>) =
       Inr (Status ''deleted'',
         ex_db\<lparr>expenses := filter (\<lambda>r. e_id r \<noteq> 2) (expenses ex_db)\<rparr>)"
    by blast+
  from m f a b c show ?thesis by (simp only: v)
qed

section \<open>Row ids\<close>

lemma invoke_seq_expenses_mono: "seq_expenses d \<le> seq_expenses (snd (invoke ar c d))"
  by (cases c)
     (auto simp: add_expense_def new_rowid_def update_expense_def delete_expense_def
        set_budget_def add_income_def Let_def split: sum.splits if_splits)

lemma invoke_seq_income_mono: "seq_income d \<le> seq_income (snd (invoke ar c d))"
  by (cases c)
     (auto simp: add_expense_def new_rowid_def update_expense_def delete_expense_def
        set_budget_def add_income_def Let_def split: sum.splits if_splits)

lemma add_expense_new_id:
  assumes "add_expense dt am ca su no d = Inr (Status_Id s n, d')"
  shows "seq_expenses d < n \<and> seq_expenses d' = n"
  using assms
  by (auto simp: add_expense_def new_rowid_def Let_def split: sum.splits if_splits)

lemma add_income_new_id:
  assumes "add_income dt am so no d = Inr (Status_Id s n, d')"
  shows "seq_income d < n \<and> seq_income d' = n"
  using assms
  by (auto simp: add_income_def new_rowid_def Let_def split: sum.splits if_splits)

text \<open>
  Every id a run hands out is above the sequence value the run started from, and the
  ids come out in strictly increasing order.
\<close>

lemma expense_ids_run:
  "sorted_wrt (<) (expense_ids cs (fst (run ar cs d))) \<and>
   (\<forall>n \<in> set (expense_ids cs (fst (run ar cs d))). seq_expenses d < n)"
proof (induction cs arbitrary: d)
  case Nil
  then show ?case by simp
next
  case (Cons c cs)
  obtain r d' where inv: "invoke ar c d = (r, d')" by (cases "invoke ar c d")
  obtain rs d'' where rn: "run ar cs d' = (rs, d'')" by (cases "run ar cs d'")
  have IH: "sorted_wrt (<) (expense_ids cs rs)"
    "\<forall>n \<in> set (expense_ids cs rs). seq_expenses d' < n"
    using Cons.IH [of d'] rn by simp_all
  have mono: "seq_expenses d \<le> seq_expenses d'"
    using invoke_seq_expenses_mono [of d ar c] inv by simp
  show ?case
  proof (cases "\<exists>dt am ca su no s n. c = Add_expense dt am ca su no \<and> r = Inr (Status_Id s n)")
    case True
    then obtain dt am ca su no s n where
      c: "c = Add_expense dt am ca su no" and r: "r = Inr (Status_Id s n)" by blast
    from inv c r have "add_expense dt am ca su no d = Inr (Status_Id s n, d')"
      by (auto split: sum.splits)
    then have "seq_expenses d < n" "seq_expenses d' = n"
      using add_expense_new_id by blast+
    with IH show ?thesis
      using inv rn c r by auto
  next
    case False
    then have "expense_ids (c # cs) (r # rs) = expense_ids cs rs"
      by (cases "(c # cs, r # rs)" rule: expense_ids.cases) auto
    with IH mono show ?thesis
      using inv rn by auto
  qed
qed

lemma income_ids_run:
  "sorted_wrt (<) (income_ids cs (fst (run ar cs d))) \<and>
   (\<forall>n \<in> set (income_ids cs (fst (run ar cs d))). seq_income d < n)"
proof (induction cs arbitrary: d)
  case Nil
  then show ?case by simp
next
  case (Cons c cs)
  obtain r d' where inv: "invoke ar c d = (r, d')" by (cases "invoke ar c d")
  obtain rs d'' where rn: "run ar cs d' = (rs, d'')" by (cases "run ar cs d'")
  have IH: "sorted_wrt (<) (income_ids cs rs)"
    "\<forall>n \<in> set (income_ids cs rs). seq_income d' < n"
    using Cons.IH [of d'] rn by simp_all
  have mono: "seq_income d \<le> seq_income d'"
    using invoke_seq_income_mono [of d ar c] inv by simp
  show ?case
  proof (cases "\<exists>dt am so no s n. c = Add_income dt am so no \<and> r = Inr (Status_Id s n)")
    case True
    then obtain dt am so no s n where
      c: "c = Add_income dt am so no" and r: "r = Inr (Status_Id s n)" by blast
    from inv c r have "add_income dt am so no d = Inr (Status_Id s n, d')"
      by (auto split: sum.splits)
    then have "seq_income d < n" "seq_income d' = n"
      using add_income_new_id by blast+
    with IH show ?thesis
      using inv rn c r by auto
  next
    case False
    then have "income_ids (c # cs) (r # rs) = income_ids cs rs"
      by (cases "(c # cs, r # rs)" rule: income_ids.cases) auto
    with IH mono show ?thesis
      using inv rn by auto
  qed
qed

text \<open>
  C6. Over any sequence of calls on a database, new or existing, the ids returned by
  \<open>add_expense\<close> are strictly increasing in the order of the calls, so each is greater
  than every id returned before and none is returned twice, whatever was deleted in
  between; likewise the ids returned by \<open>add_income\<close>.
\<close>

theorem ids_strictly_increasing:
  "sorted_wrt (<) (expense_ids cs (fst (run ar cs (init_db file)))) \<and>
   distinct (expense_ids cs (fst (run ar cs (init_db file)))) \<and>
   sorted_wrt (<) (income_ids cs (fst (run ar cs (init_db file)))) \<and>
   distinct (income_ids cs (fst (run ar cs (init_db file))))"
  using expense_ids_run [of cs ar "init_db file"] income_ids_run [of cs ar "init_db file"]
  by (simp add: strict_sorted_iff)

theorem ids_strictly_increasing_witness:
  "expense_ids ex_calls (fst (run exact_arith ex_calls (init_db None))) = [1, 2, 3, 4] \<and>
   sorted_wrt (<) (expense_ids ex_calls (fst (run exact_arith ex_calls (init_db None)))) \<and>
   income_ids ex_calls (fst (run exact_arith ex_calls (init_db None))) = [1, 2] \<and>
   map e_id (expenses (snd (run exact_arith ex_calls (init_db None)))) = [1, 2, 4]"
  using ids_strictly_increasing [of ex_calls exact_arith None]
  by (simp add: ex_calls_def init_db_def add_expense_def add_income_def
      new_rowid_def delete_expense_def fits_int64_def set_budget_def upsert_budget_def sql_eq_def
      binary_collate_def MAX_ROWID_def Let_def)

section \<open>Budgets\<close>

lemma upsert_budget_categories:
  "map b_category (upsert_budget c l bs) =
     (if c \<in> set (map b_category bs) then map b_category bs else map b_category bs @ [c])"
  by (auto simp: upsert_budget_def sql_eq_iff list_ex_iff)

lemma upsert_budget_distinct:
  "distinct (map b_category bs) \<Longrightarrow> distinct (map b_category (upsert_budget c l bs))"
  by (simp add: upsert_budget_categories)

lemma invoke_budgets_distinct:
  "distinct (map b_category (budgets d)) \<Longrightarrow>
   distinct (map b_category (budgets (snd (invoke ar c d))))"
  by (cases c)
     (auto simp: add_expense_def update_expense_def delete_expense_def
        set_budget_def add_income_def upsert_budget_distinct Let_def
        split: sum.splits if_splits)

lemma run_budgets_distinct:
  "distinct (map b_category (budgets d)) \<Longrightarrow>
   distinct (map b_category (budgets (snd (run ar cs d))))"
proof (induction cs arbitrary: d)
  case Nil
  then show ?case by simp
next
  case (Cons c cs)
  then show ?case
    by (simp only: snd_run_Cons invoke_budgets_distinct)
qed

lemma reachable_budgets_distinct:
  "distinct (map b_category (budgets (snd (run ar cs (init_db None)))))"
  by (rule run_budgets_distinct) (simp add: init_db_def)

lemma filter_updated_budget:
  "distinct (map b_category bs) \<Longrightarrow>
   filter (\<lambda>b. b_category b = c)
     (map (\<lambda>b. if b_category b = c then b\<lparr>b_monthly_limit := l\<rparr> else b) bs) =
   (if c \<in> set (map b_category bs) then [\<lparr>b_category = c, b_monthly_limit = l\<rparr>] else [])"
  by (induction bs) (auto simp: image_iff)

lemma filter_upsert_budget:
  assumes "distinct (map b_category bs)"
  shows "filter (\<lambda>b. b_category b = c) (upsert_budget c l bs) =
           [\<lparr>b_category = c, b_monthly_limit = l\<rparr>]"
proof (cases "c \<in> set (map b_category bs)")
  case True
  then show ?thesis
    using filter_updated_budget [OF assms, of c l]
    by (auto simp: upsert_budget_def sql_eq_iff list_ex_iff)
next
  case False
  then have "filter (\<lambda>b. b_category b = c) bs = []"
    by (auto simp: filter_empty_conv)
  with False show ?thesis
    by (auto simp: upsert_budget_def sql_eq_iff list_ex_iff)
qed

text \<open>
  C4. In every database \<open>d\<close> that a sequence of calls builds from a new one, the budget
  rows have pairwise different categories (at most one row per category, at any time),
  and after \<open>set_budget c l1\<close> followed by \<open>set_budget c l2\<close> the budget rows for \<open>c\<close> are
  exactly one row, with limit \<open>l2\<close>. On any database \<open>set_budget\<close> appends the row when
  no row has the category, and otherwise replaces the limit of the rows that have it
  and changes nothing else.
\<close>

theorem set_budget_upsert:
  "filter (\<lambda>b. b_category b = c)
     (budgets (snd (set_budget c l2 (snd (set_budget c l1 (snd (run ar cs (init_db None)))))))) =
     [\<lparr>b_category = c, b_monthly_limit = l2\<rparr>] \<and>
   distinct (map b_category (budgets (snd (run ar cs (init_db None))))) \<and>
   (c \<notin> set (map b_category (budgets d)) \<longrightarrow>
      set_budget c l1 d =
        (Status ''ok'', d\<lparr>budgets := budgets d @ [\<lparr>b_category = c, b_monthly_limit = l1\<rparr>]\<rparr>)) \<and>
   (c \<in> set (map b_category (budgets d)) \<longrightarrow>
      set_budget c l1 d =
        (Status ''ok'',
         d\<lparr>budgets := map (\<lambda>b. if b_category b = c then b\<lparr>b_monthly_limit := l1\<rparr> else b)
                          (budgets d)\<rparr>))"
proof -
  let ?d = "snd (run ar cs (init_db None))"
  have inv: "distinct (map b_category (budgets ?d))"
    by (rule reachable_budgets_distinct)
  then have "distinct (map b_category (upsert_budget c l1 (budgets ?d)))"
    by (rule upsert_budget_distinct)
  then have "filter (\<lambda>b. b_category b = c)
       (upsert_budget c l2 (upsert_budget c l1 (budgets ?d))) =
     [\<lparr>b_category = c, b_monthly_limit = l2\<rparr>]"
    by (rule filter_upsert_budget)
  then have twice: "filter (\<lambda>b. b_category b = c)
     (budgets (snd (set_budget c l2 (snd (set_budget c l1 ?d))))) =
     [\<lparr>b_category = c, b_monthly_limit = l2\<rparr>]"
    by (simp add: set_budget_def)
  have ins: "set_budget c l1 d =
        (Status ''ok'', d\<lparr>budgets := budgets d @ [\<lparr>b_category = c, b_monthly_limit = l1\<rparr>]\<rparr>)"
    if "c \<notin> set (map b_category (budgets d))"
    using that by (auto simp: set_budget_def upsert_budget_def sql_eq_iff list_ex_iff)
  have upd: "set_budget c l1 d =
        (Status ''ok'',
         d\<lparr>budgets := map (\<lambda>b. if b_category b = c then b\<lparr>b_monthly_limit := l1\<rparr> else b)
                          (budgets d)\<rparr>)"
    if "c \<in> set (map b_category (budgets d))"
    using that by (auto simp: set_budget_def upsert_budget_def sql_eq_iff list_ex_iff)
  from twice ins upd inv show ?thesis by blast
qed

theorem set_budget_upsert_witness:
  "''rent'' \<notin> set (map b_category (budgets ex_db)) \<and>
   budgets (snd (set_budget ''rent'' 800 ex_db)) =
     [\<lparr>b_category = ''food'', b_monthly_limit = 300\<rparr>,
      \<lparr>b_category = ''rent'', b_monthly_limit = 800\<rparr>] \<and>
   ''food'' \<in> set (map b_category (budgets ex_db)) \<and>
   budgets (snd (set_budget ''food'' 120 ex_db)) =
     [\<lparr>b_category = ''food'', b_monthly_limit = 120\<rparr>] \<and>
   budgets (snd (set_budget ''rent'' 900 (snd (set_budget ''rent'' 800 ex_db)))) =
     [\<lparr>b_category = ''food'', b_monthly_limit = 300\<rparr>,
      \<lparr>b_category = ''rent'', b_monthly_limit = 900\<rparr>]"
proof -
  have a: "''rent'' \<notin> set (map b_category (budgets ex_db))"
    and b: "''food'' \<in> set (map b_category (budgets ex_db))"
    by (simp_all add: ex_db_def)
  from a set_budget_upsert [of "''rent''" 0 800 exact_arith "[]" ex_db]
  have 1: "set_budget ''rent'' 800 ex_db =
      (Status ''ok'',
       ex_db\<lparr>budgets := budgets ex_db @ [\<lparr>b_category = ''rent'', b_monthly_limit = 800\<rparr>]\<rparr>)"
    by blast
  from b set_budget_upsert [of "''food''" 0 120 exact_arith "[]" ex_db]
  have 2: "set_budget ''food'' 120 ex_db =
      (Status ''ok'',
       ex_db\<lparr>budgets := map (\<lambda>b. if b_category b = ''food''
                                   then b\<lparr>b_monthly_limit := 120\<rparr> else b) (budgets ex_db)\<rparr>)"
    by blast
  have v1: "budgets (snd (set_budget ''rent'' 800 ex_db)) =
     [\<lparr>b_category = ''food'', b_monthly_limit = 300\<rparr>,
      \<lparr>b_category = ''rent'', b_monthly_limit = 800\<rparr>]"
    by (simp add: 1) (simp add: ex_db_def)
  have v2: "budgets (snd (set_budget ''food'' 120 ex_db)) =
     [\<lparr>b_category = ''food'', b_monthly_limit = 120\<rparr>]"
    by (simp add: 2) (simp add: ex_db_def)
  have 3: "budgets (snd (set_budget ''rent'' 900 (snd (set_budget ''rent'' 800 ex_db)))) =
     [\<lparr>b_category = ''food'', b_monthly_limit = 300\<rparr>,
      \<lparr>b_category = ''rent'', b_monthly_limit = 900\<rparr>]"
    by (simp add: set_budget_def upsert_budget_def sql_eq_def binary_collate_def ex_db_def)
  from a b v1 v2 3 show ?thesis by blast
qed

section \<open>Budget status\<close>



























section \<open>Summaries\<close>

lemma single_mem: "xs \<noteq> [] \<Longrightarrow> set xs \<subseteq> {c} \<Longrightarrow> c \<in> set xs"
  by (cases xs) auto

lemma remdups_single:
  "set xs \<subseteq> {c} \<Longrightarrow> remdups xs = (if xs = [] then [] else [c])"
  by (induction xs) (auto simp: single_mem)

lemma order_by_Nil_iff: "order_by le xs = [] \<longleftrightarrow> xs = []"
  by (metis mset_order_by mset_zero_iff)

lemma group_keys_single:
  "set ks \<subseteq> {c} \<Longrightarrow> group_keys ks = (if ks = [] then [] else [c])"
  by (simp add: group_keys_def remdups_single set_order_by order_by_Nil_iff)

lemma summarize_where_Some:
  "c \<noteq> [] \<Longrightarrow>
   summarize_where s e (Some c) r \<longleftrightarrow> s \<le> e_date r \<and> e_date r \<le> e \<and> e_category r = c"
  by (simp add: summarize_where_def truthy_def sql_between_iff sql_eq_iff)

text \<open>
  C7 (as amended). For every date range and every category argument \<open>c\<close> that is not
  the empty text, \<open>summarize\<close> returns no row when no expense of category \<open>c\<close> lies in
  the range, and otherwise the single row of \<open>c\<close> with SQLite's sum of the amounts of
  those expenses, taken in the order of the table: at most one row. The empty text is
  treated as an absent category.
\<close>

theorem summarize_one_category:
  assumes "c \<noteq> []"
  shows "summarize ar s e (Some c) d =
     (if filter (\<lambda>r. s \<le> e_date r \<and> e_date r \<le> e \<and> e_category r = c) (expenses d) = []
      then []
      else [\<lparr>s_category = c,
             s_total_amount = sum_real ar (map e_amount
               (filter (\<lambda>r. s \<le> e_date r \<and> e_date r \<le> e \<and> e_category r = c)
                  (expenses d)))\<rparr>]) \<and>
   length (summarize ar s e (Some c) d) \<le> 1 \<and>
   summarize ar s e (Some []) d = summarize ar s e None d"
proof -
  let ?rows = "filter (\<lambda>r. s \<le> e_date r \<and> e_date r \<le> e \<and> e_category r = c) (expenses d)"
  have rows: "filter (summarize_where s e (Some c)) (expenses d) = ?rows"
    using assms by (simp add: summarize_where_Some cong: filter_cong)
  have "set (map e_category ?rows) \<subseteq> {c}" by auto
  then have keys: "group_keys (map e_category ?rows) = (if ?rows = [] then [] else [c])"
    by (simp add: group_keys_single)
  have absent: "summarize ar s e (Some []) d = summarize ar s e None d"
    by (simp add: summarize_def summarize_where_def [abs_def] truthy_def)
  have "summarize ar s e (Some c) d =
     (if ?rows = [] then []
      else [\<lparr>s_category = c, s_total_amount = sum_real ar (map e_amount ?rows)\<rparr>])"
    unfolding summarize_def rows Let_def keys
    by (simp add: sql_eq_iff cong: conj_cong)
  with absent show ?thesis by simp
qed

theorem summarize_one_category_witness:
  "''food'' \<noteq> [] \<and>
   summarize exact_arith ''2000-01-01'' ''2100-01-01'' (Some ''food'') ex_db =
     [\<lparr>s_category = ''food'', s_total_amount = 160\<rparr>] \<and>
   summarize exact_arith ''2000-01-01'' ''2100-01-01'' (Some ''rent'') ex_db = []"
  using summarize_one_category [of "''food''" exact_arith "''2000-01-01''" "''2100-01-01''" ex_db]
    summarize_one_category [of "''rent''" exact_arith "''2000-01-01''" "''2100-01-01''" ex_db]
  by (simp add: ex_db_def exact_arith_def)

text \<open>
  With the empty text as category nothing is restricted: the result has the rows of
  two categories, although no expense has the empty category.
\<close>

theorem summarize_empty_category_counterexample:
  "summarize exact_arith ''2000-01-01'' ''2100-01-01'' (Some '''') ex_db =
     [\<lparr>s_category = ''food'', s_total_amount = 160\<rparr>,
      \<lparr>s_category = ''shopping'', s_total_amount = 5000\<rparr>] \<and>
   filter (\<lambda>r. e_category r = '''') (expenses ex_db) = []"
  by (simp add: summarize_def summarize_where_def truthy_def ex_db_def group_keys_def
      order_by_def sql_between_def sql_eq_def sql_le_def binary_collate_def exact_arith_def)

section \<open>Listing income\<close>

lemma sorted_income_dates: "sorted (map i_date (list_income s e d))"
proof -
  have "sorted_wrt (\<lambda>r t. sql_le (i_date r) (i_date t)) (list_income s e d)"
    unfolding list_income_def by (rule sorted_order_by) (auto simp: sql_le_iff)
  then show ?thesis
    by (simp add: sorted_map sql_le_iff)
qed

text \<open>
  C8. For all bounds, \<open>list_income\<close> returns the stored income rows whose date lies
  between them, in ascending order of date. That is not the order of ids: a sequence
  of calls on a new database exists after which the listed rows are not in ascending
  order of id.
\<close>

theorem list_income_by_date:
  "mset (list_income s e d) =
     filter_mset (\<lambda>r. s \<le> i_date r \<and> i_date r \<le> e) (mset (income d)) \<and>
   sorted (map i_date (list_income s e d)) \<and>
   (\<exists>cs. \<not> sorted (map i_id (list_income ''2024-01-01'' ''2024-12-31''
                                 (snd (run ar cs (init_db None))))))"
proof -
  have "\<not> sorted (map i_id (list_income ''2024-01-01'' ''2024-12-31''
                                 (snd (run ar ex_calls (init_db None)))))"
    unfolding run_ex_calls
    by (simp add: list_income_def ex_db_def order_by_def sql_between_def sql_le_def
        binary_collate_def)
  then show ?thesis
    using sorted_income_dates [of s e d]
    by (auto simp: list_income_def mset_order_by sql_between_iff)
qed

theorem list_income_by_date_witness:
  "list_income ''2024-01-01'' ''2024-12-31'' ex_db =
     [\<lparr>i_id = 2, i_date = ''2024-01-31'', i_amount = 50, i_source = ''gift'', i_note = ''''\<rparr>,
      \<lparr>i_id = 1, i_date = ''2024-03-01'', i_amount = 900, i_source = ''salary'',
       i_note = ''''\<rparr>] \<and>
   sorted (map i_date (list_income ''2024-01-01'' ''2024-12-31'' ex_db))"
proof -
  have "list_income ''2024-01-01'' ''2024-12-31'' ex_db =
     [\<lparr>i_id = 2, i_date = ''2024-01-31'', i_amount = 50, i_source = ''gift'', i_note = ''''\<rparr>,
      \<lparr>i_id = 1, i_date = ''2024-03-01'', i_amount = 900, i_source = ''salary'',
       i_note = ''''\<rparr>]"
    by (simp add: list_income_def ex_db_def order_by_def sql_between_def sql_le_def
        binary_collate_def)
  with list_income_by_date [of "''2024-01-01''" "''2024-12-31''" ex_db]
  show ?thesis by blast
qed

section \<open>The agent client without a credential\<close>

text \<open>
  C9. When the environment holds no credential (the variable is unset, or set to the
  empty text) and the discovered tools include \<open>list_expenses\<close>, the client, after
  discovering the tools, sends exactly one request: \<open>list_expenses\<close> from 2000-01-01 to
  2100-01-01. It sends nothing to the language model, and it returns normally exactly
  when that invocation returns: the missing credential alone never ends it by an
  exception.
\<close>

theorem smoke_test_without_credential:
  assumes "getenv_key w = None \<or> getenv_key w = Some ''''"
    and "''list_expenses'' \<in> set (discovered w)"
  shows "fst (main w) =
           [Get_tools,
            Tool_invoke ''list_expenses''
              [(''start_date'', ''2000-01-01''), (''end_date'', ''2100-01-01'')]] \<and>
         (\<forall>q. Model_invoke q \<notin> set (fst (main w))) \<and>
         (snd (main w) = None \<longleftrightarrow> tool_result w ''list_expenses'' smoke_test_args \<noteq> None)"
  using assms
  by (auto simp: main_def smoke_test_def truthy_def smoke_test_args_def split: option.splits)

theorem smoke_test_without_credential_witness:
  "getenv_key ex_world = None \<and> ''list_expenses'' \<in> set (discovered ex_world) \<and>
   main ex_world =
     ([Get_tools,
       Tool_invoke ''list_expenses''
         [(''start_date'', ''2000-01-01''), (''end_date'', ''2100-01-01'')]], None)"
proof -
  have k: "getenv_key ex_world = None \<or> getenv_key ex_world = Some ''''"
    by (simp add: ex_world_def)
  have t: "''list_expenses'' \<in> set (discovered ex_world)"
    by (simp add: ex_world_def gateway_tools_def)
  have r: "tool_result ex_world ''list_expenses'' smoke_test_args \<noteq> None"
    by (simp add: ex_world_def)
  from smoke_test_without_credential [OF k t] r show ?thesis
    using t by (simp add: ex_world_def prod_eq_iff)
qed

end
